theory Spec2Isabelle
  imports Main "HOL-Library.AList"
begin

section \<open>Python values of the setup-data importer\<close>

text \<open>
  The importer of \<^verbatim>\<open>senaite/core/exportimport/setupdata/__init__.py\<close> is Python 2 code.
  A worksheet cell holds \<^verbatim>\<open>None\<close>, a byte string, a unicode string, an integer or a
  boolean. Text is represented by its UTF-8 bytes, so \<^verbatim>\<open>value.encode('utf-8')\<close> keeps
  the bytes and changes the constructor. Float and date cells are outside this model.
\<close>

datatype cell = CNone | CStr string | CUnicode string | CInt int | CBool bool

text \<open>
  Values that flow through the importer once a row has been read: the entries of a
  record, the arguments of the coercion helpers and the values of a catalog query.
  \<open>PDict\<close> is the nested mapping built for an address category.
\<close>

datatype pyval = PNone | PStr string | PInt int | PBool bool | PDict "(string \<times> string) list"

text \<open>
  Dictionary keys of a record are the header cells. Python compares keys with \<^verbatim>\<open>==\<close>:
  an ASCII unicode string equals the byte string of the same text, and \<^verbatim>\<open>True == 1\<close>.
\<close>

datatype key = KNone | KText string | KNum int

type_synonym rowdict = "(key \<times> pyval) list"

text \<open>The exceptions the modelled code raises.\<close>

datatype exn =
    ValueError
  | TypeError
  | KeyError string
  | IndexError
  | IOError string
  | Exception string

fun key_of :: "cell \<Rightarrow> key" where
  "key_of CNone = KNone"
| "key_of (CStr s) = KText s"
| "key_of (CUnicode s) = KText s"
| "key_of (CInt n) = KNum n"
| "key_of (CBool b) = KNum (if b then 1 else 0)"

text \<open>Truth value of a Python value, as \<^verbatim>\<open>if not x\<close> tests it.\<close>

fun truthy :: "pyval \<Rightarrow> bool" where
  "truthy PNone = False"
| "truthy (PStr s) = (s \<noteq> [])"
| "truthy (PInt n) = (n \<noteq> 0)"
| "truthy (PBool b) = b"
| "truthy (PDict d) = (d \<noteq> [])"

subsection \<open>Record access\<close>

text \<open>\<^verbatim>\<open>row.get(name, default)\<close>, \<^verbatim>\<open>row[name]\<close> and \<^verbatim>\<open>name in row\<close> for a literal name.\<close>

definition row_get :: "rowdict \<Rightarrow> string \<Rightarrow> pyval \<Rightarrow> pyval" where
  "row_get row name dflt = (case map_of row (KText name) of None \<Rightarrow> dflt | Some v \<Rightarrow> v)"

definition row_item :: "rowdict \<Rightarrow> string \<Rightarrow> exn + pyval" where
  "row_item row name = (case map_of row (KText name) of None \<Rightarrow> Inl (KeyError name) | Some v \<Rightarrow> Inr v)"

definition row_has :: "rowdict \<Rightarrow> string \<Rightarrow> bool" where
  "row_has row name = (map_of row (KText name) \<noteq> None)"

subsection \<open>Conversions of the Python runtime\<close>

definition digit_char :: "nat \<Rightarrow> char" where
  "digit_char d = char_of (48 + d)"

fun nat_digits :: "nat \<Rightarrow> string" where
  "nat_digits n = (if n < 10 then [digit_char n] else nat_digits (n div 10) @ [digit_char (n mod 10)])"

definition int_str :: "int \<Rightarrow> string" where
  "int_str i = (if i < 0 then CHR ''-'' # nat_digits (nat (- i)) else nat_digits (nat i))"

text \<open>
  \<^verbatim>\<open>str(x)\<close>. The importer applies it to cells of a record only; the rendering of a
  nested mapping (Python prints its \<^verbatim>\<open>repr\<close>) is not reproduced and stands as a fixed
  marker.
\<close>

fun py_str :: "pyval \<Rightarrow> string" where
  "py_str PNone = ''None''"
| "py_str (PStr s) = s"
| "py_str (PInt n) = int_str n"
| "py_str (PBool b) = (if b then ''True'' else ''False'')"
| "py_str (PDict d) = ''{...}''"

definition is_space :: "char \<Rightarrow> bool" where
  "is_space c = (c \<in> set [CHR '' '', CHR 0x09, CHR 0x0A, CHR 0x0B, CHR 0x0C, CHR 0x0D])"

definition strip_chars :: "(char \<Rightarrow> bool) \<Rightarrow> string \<Rightarrow> string" where
  "strip_chars p s = rev (dropWhile p (rev (dropWhile p s)))"

definition digit_val :: "char \<Rightarrow> nat option" where
  "digit_val c = (let n = (of_char c :: nat) in if 48 \<le> n \<and> n \<le> 57 then Some (n - 48) else None)"

fun parse_digits :: "nat \<Rightarrow> string \<Rightarrow> nat option" where
  "parse_digits acc [] = Some acc"
| "parse_digits acc (c # cs) =
     (case digit_val c of None \<Rightarrow> None | Some d \<Rightarrow> parse_digits (10 * acc + d) cs)"

definition parse_nat :: "string \<Rightarrow> nat option" where
  "parse_nat s = (if s = [] then None else parse_digits 0 s)"

text \<open>
  \<^verbatim>\<open>int(s)\<close> on a string, base 10: surrounding whitespace is dropped, one sign may come
  first, at least one digit follows and nothing else.
\<close>

definition parse_int :: "string \<Rightarrow> int option" where
  "parse_int s =
     (case strip_chars is_space s of
        [] \<Rightarrow> None
      | c # cs \<Rightarrow>
          if c = CHR ''-'' then map_option (\<lambda>n. - int n) (parse_nat cs)
          else if c = CHR ''+'' then map_option int (parse_nat cs)
          else map_option int (parse_nat (c # cs)))"

fun py_int :: "pyval \<Rightarrow> exn + int" where
  "py_int PNone = Inl TypeError"
| "py_int (PStr s) = (case parse_int s of None \<Rightarrow> Inl ValueError | Some n \<Rightarrow> Inr n)"
| "py_int (PInt n) = Inr n"
| "py_int (PBool b) = Inr (if b then 1 else 0)"
| "py_int (PDict d) = Inl TypeError"

text \<open>
  \<^verbatim>\<open>float(x)\<close>. Floating-point numbers are kept abstract: the type \<open>'f\<close> with the parser
  of float literals \<open>fparse\<close> and the conversion of integers \<open>fint\<close> as parameters.
\<close>

fun py_float :: "(string \<Rightarrow> 'f option) \<Rightarrow> (int \<Rightarrow> 'f) \<Rightarrow> pyval \<Rightarrow> exn + 'f" where
  "py_float fparse fint PNone = Inl TypeError"
| "py_float fparse fint (PStr s) = (case fparse s of None \<Rightarrow> Inl ValueError | Some x \<Rightarrow> Inr x)"
| "py_float fparse fint (PInt n) = Inr (fint n)"
| "py_float fparse fint (PBool b) = Inr (fint (if b then 1 else 0))"
| "py_float fparse fint (PDict d) = Inl TypeError"

section \<open>Numeric coercion helpers\<close>

text \<open>
  \<^verbatim>\<open>
  def to_int(self, value, default=0):
      try:
          return int(value)
      except ValueError:
          try:
              return int(default)
          except Exception:
              return 0
  \<close>
  Only \<^verbatim>\<open>ValueError\<close> is caught around the first conversion; any exception is caught
  around the second.
\<close>

definition to_int :: "pyval \<Rightarrow> pyval \<Rightarrow> exn + int" where
  "to_int v dflt =
     (case py_int v of
        Inr n \<Rightarrow> Inr n
      | Inl ValueError \<Rightarrow> (case py_int dflt of Inr d \<Rightarrow> Inr d | Inl e \<Rightarrow> Inr 0)
      | Inl e \<Rightarrow> Inl e)"

definition to_float :: "(string \<Rightarrow> 'f option) \<Rightarrow> (int \<Rightarrow> 'f) \<Rightarrow> pyval \<Rightarrow> pyval \<Rightarrow> exn + 'f" where
  "to_float fparse fint v dflt =
     (case py_float fparse fint v of
        Inr x \<Rightarrow> Inr x
      | Inl ValueError \<Rightarrow>
          (case py_float fparse fint dflt of Inr d \<Rightarrow> Inr d | Inl e \<Rightarrow> Inr (fint 0))
      | Inl e \<Rightarrow> Inl e)"

section \<open>Asset files\<close>

text \<open>
  The file system, as \<^verbatim>\<open>os.path.isfile\<close> and \<^verbatim>\<open>open(path, "rb").read()\<close> see it: a
  path names a regular file with its bytes, or nothing.
\<close>

type_synonym filesystem = "string \<Rightarrow> string option"

definition upper_char :: "char \<Rightarrow> char" where
  "upper_char c = (let n = (of_char c :: nat) in if 97 \<le> n \<and> n \<le> 122 then char_of (n - 32) else c)"

definition upper :: "string \<Rightarrow> string" where
  "upper s = map upper_char s"

definition allowed_ext_lower :: "string list" where
  "allowed_ext_lower = [''pdf'', ''jpg'', ''jpeg'', ''png'', ''gif'', ''ods'', ''odt'',
                        ''xlsx'', ''doc'', ''docx'', ''xls'', ''csv'', ''txt'']"

definition allowed_ext :: "string list" where
  "allowed_ext = allowed_ext_lower @ map upper allowed_ext_lower"

definition candidate :: "string \<Rightarrow> string \<Rightarrow> string" where
  "candidate path e = path @ ''.'' @ e"

fun join_comma :: "string list \<Rightarrow> string" where
  "join_comma [] = []"
| "join_comma [x] = x"
| "join_comma (x # y # ys) = x @ '','' @ join_comma (y # ys)"

definition not_found :: "string \<Rightarrow> exn" where
  "not_found path =
     IOError (''File not found: '' @ path @ ''. Allowed extensions: '' @ join_comma allowed_ext)"

text \<open>The loop \<^verbatim>\<open>for e in allowed_ext\<close> of \<^verbatim>\<open>read_file\<close>: the first candidate that is a file.\<close>

fun probe :: "filesystem \<Rightarrow> string \<Rightarrow> string list \<Rightarrow> string option" where
  "probe fs path [] = None"
| "probe fs path (e # es) =
     (case fs (candidate path e) of Some bytes \<Rightarrow> Some bytes | None \<Rightarrow> probe fs path es)"

definition read_file :: "filesystem \<Rightarrow> string \<Rightarrow> exn + string" where
  "read_file fs path =
     (case fs path of
        Some bytes \<Rightarrow> Inr bytes
      | None \<Rightarrow>
          (case probe fs path allowed_ext of
             Some bytes \<Rightarrow> Inr bytes
           | None \<Rightarrow> Inl (not_found path)))"

section \<open>The importer of one worksheet\<close>

type_synonym worksheet = "cell list list"

datatype logline =
    LoadingSheet string
  | NoRecordsFound string
  | AttachedFileWarning string
  | PortalMessage
  | MoreThanOneObject "(string \<times> pyval) list"
  | NoObjectsFound "(string \<times> pyval) list"

text \<open>
  \<^verbatim>\<open>WorksheetImporter.__call__\<close>. The sheet's \<^verbatim>\<open>Import\<close> is a parameter: it changes the
  state of the site and may end in an exception, the state it reached remaining. A
  missing sheet is \<^verbatim>\<open>None\<close>. Only \<^verbatim>\<open>IOError\<close> is caught; every other exception leaves
  \<^verbatim>\<open>__call__\<close>.
\<close>

definition WorksheetImporter_call ::
  "(worksheet \<Rightarrow> 's \<Rightarrow> 's \<times> exn option) \<Rightarrow> (string \<Rightarrow> worksheet option) \<Rightarrow> string \<Rightarrow> 's
     \<Rightarrow> ('s \<times> logline list) \<times> exn option" where
  "WorksheetImporter_call Import workbook sheetname st =
     (case workbook sheetname of
        None \<Rightarrow> ((st, [NoRecordsFound sheetname]), None)
      | Some ws \<Rightarrow>
          (case Import ws st of
             (st', Some (IOError m)) \<Rightarrow>
               ((st', [LoadingSheet sheetname, AttachedFileWarning sheetname, PortalMessage]), None)
           | (st', r) \<Rightarrow> ((st', [LoadingSheet sheetname]), r)))"

section \<open>Reading the rows of a worksheet\<close>

text \<open>
  The body of the loop over the cells of a data row: \<^verbatim>\<open>None\<close> becomes the empty string,
  unicode is encoded, and a string is stripped of \<^verbatim>\<open>' \t\n\r'\<close> on both sides.
\<close>

definition strip_set :: "char \<Rightarrow> bool" where
  "strip_set c = (c \<in> set [CHR '' '', CHR 0x09, CHR 0x0A, CHR 0x0D])"

fun clean_cell :: "cell \<Rightarrow> pyval" where
  "clean_cell CNone = PStr (strip_chars strip_set [])"
| "clean_cell (CUnicode s) = PStr (strip_chars strip_set s)"
| "clean_cell (CStr s) = PStr (strip_chars strip_set s)"
| "clean_cell (CInt n) = PInt n"
| "clean_cell (CBool b) = PBool b"

text \<open>\<^verbatim>\<open>dict(zip(headers, new_row))\<close>: a later duplicate of a header overrides.\<close>

definition zip_dict :: "cell list \<Rightarrow> pyval list \<Rightarrow> rowdict" where
  "zip_dict headers new_row = AList.updates (map key_of headers) new_row []"

definition address_types :: "string list" where
  "address_types = [''Physical'', ''Postal'', ''Billing'']"

definition address_keys :: "string list" where
  "address_keys = [''Address'', ''City'', ''State'', ''District'', ''Zip'', ''Country'']"

text \<open>
  \<^verbatim>\<open>row[add_type][key] = str(row.get("%s_%s" % (add_type, key), ''))\<close>. The entry of
  \<^verbatim>\<open>add_type\<close> is the mapping assigned just before the loop over the keys.
\<close>

definition set_address_key :: "string \<Rightarrow> string \<Rightarrow> rowdict \<Rightarrow> rowdict" where
  "set_address_key add_type k row =
     (let v = py_str (row_get row (add_type @ ''_'' @ k) (PStr []))
      in case map_of row (KText add_type) of
           Some (PDict sub) \<Rightarrow> AList.update (KText add_type) (PDict (AList.update k v sub)) row
         | _ \<Rightarrow> row)"

definition parse_address :: "string \<Rightarrow> rowdict \<Rightarrow> rowdict" where
  "parse_address add_type row0 =
     (let row = AList.update (KText add_type) (PDict []) row0
      in if row_has row (add_type @ ''_Address'')
         then fold (set_address_key add_type) address_keys row
         else row)"

definition make_record :: "cell list \<Rightarrow> cell list \<Rightarrow> rowdict" where
  "make_record headers raw =
     fold parse_address address_types (zip_dict headers (map clean_cell raw))"

text \<open>
  \<^verbatim>\<open>get_rows\<close> is a generator. What it does, in order, is a sequence of events: a
  savepoint of the transaction, or a record yielded to the caller. \<open>row_nr\<close> is the
  counter before the increment that opens the loop body.
\<close>

datatype 'a gen_event = Savepoint | Yield 'a

fun rows_loop :: "int \<Rightarrow> cell list \<Rightarrow> nat \<Rightarrow> worksheet \<Rightarrow> rowdict gen_event list" where
  "rows_loop startrow headers row_nr [] = []"
| "rows_loop startrow headers row_nr (raw # rest) =
     (let row_nr = row_nr + 1 in
      if row_nr = 1 then rows_loop startrow raw row_nr rest
      else (if row_nr mod 1000 = 0 then [Savepoint] else []) @
           (if int row_nr \<le> startrow then rows_loop startrow headers row_nr rest
            else Yield (make_record headers raw) # rows_loop startrow headers row_nr rest))"

fun yields :: "'a gen_event list \<Rightarrow> 'a list" where
  "yields [] = []"
| "yields (Savepoint # es) = yields es"
| "yields (Yield r # es) = r # yields es"

definition get_rows_events :: "int \<Rightarrow> worksheet \<Rightarrow> rowdict gen_event list" where
  "get_rows_events startrow ws = rows_loop startrow [] 0 ws"

definition get_rows :: "int \<Rightarrow> worksheet \<Rightarrow> rowdict list" where
  "get_rows startrow ws = yields (get_rows_events startrow ws)"

text \<open>The header row of a worksheet: its first row, if it has one.\<close>

definition header_row :: "worksheet \<Rightarrow> cell list" where
  "header_row ws = (case ws of [] \<Rightarrow> [] | h # rest \<Rightarrow> h)"

section \<open>Looking an object up in a catalog\<close>

text \<open>
  A catalog is called with a query (index name and value) and answers with the list
  of the objects that match; it is a parameter, as is \<^verbatim>\<open>to_unicode\<close> of
  \<^verbatim>\<open>bika.lims.utils\<close>. \<^verbatim>\<open>get_object\<close> returns the object or \<^verbatim>\<open>None\<close>, and what it logs.
  \<^verbatim>\<open>kwargs\<close> are the keyword arguments in the order given, their names distinct.
\<close>

type_synonym query = "(string \<times> pyval) list"

definition content_filter :: "(pyval \<Rightarrow> pyval) \<Rightarrow> string \<Rightarrow> pyval \<Rightarrow> query \<Rightarrow> query" where
  "content_filter to_unicode portal_type title kwargs =
     (let contentFilter = [(''portal_type'', PStr portal_type)];
          contentFilter = (if truthy title
                           then AList.update ''title'' (to_unicode title) contentFilter
                           else contentFilter)
      in fold (\<lambda>(k, v). AList.update k v) kwargs contentFilter)"

definition keyword_query :: "string \<Rightarrow> pyval \<Rightarrow> query" where
  "keyword_query portal_type title = [(''portal_type'', PStr portal_type), (''getKeyword'', title)]"

definition get_object ::
  "(pyval \<Rightarrow> pyval) \<Rightarrow> (query \<Rightarrow> 'o list) \<Rightarrow> string \<Rightarrow> pyval \<Rightarrow> query \<Rightarrow> 'o option \<times> logline list" where
  "get_object to_unicode catalog portal_type title kwargs =
     (if \<not> truthy title \<and> kwargs = [] then (None, [])
      else
        let contentFilter = content_filter to_unicode portal_type title kwargs;
            brains = catalog contentFilter
        in if length brains > 1 then (None, [MoreThanOneObject contentFilter])
           else if length brains = 0 then
             (if portal_type = ''AnalysisService'' then
                (case catalog (keyword_query portal_type title) of
                   b # bs \<Rightarrow> (Some b, [])
                 | [] \<Rightarrow> (None, [NoObjectsFound contentFilter]))
              else (None, [NoObjectsFound contentFilter]))
           else (Some (brains ! 0), []))"

section \<open>Loading the uncertainties of analysis services\<close>

record uncertainty =
  intercept_min :: pyval
  intercept_max :: pyval
  errorvalue :: pyval

text \<open>
  The bucket maps the UID of a service to the uncertainties collected for it, in the
  order the UIDs were first seen. The uncertainties of the objects themselves are the
  store \<open>'o \<Rightarrow> uncertainty list\<close>, read by \<^verbatim>\<open>getUncertainties\<close> and written by
  \<^verbatim>\<open>setUncertainties\<close>.
\<close>

type_synonym bucket = "(string \<times> uncertainty list) list"

record 'o batch_state =
  bucket :: bucket
  count :: nat
  store :: "'o \<Rightarrow> uncertainty list"
  writes :: "bucket list"

text \<open>
  \<^verbatim>\<open>write_bucket\<close>: for every entry of the bucket the object is fetched by its UID,
  \<^verbatim>\<open>bsc(UID=service_uid)[0]\<close>, and its uncertainties are read, extended and written.
\<close>

fun write_bucket ::
  "(query \<Rightarrow> 'o list) \<Rightarrow> bucket \<Rightarrow> ('o \<Rightarrow> uncertainty list) \<Rightarrow> exn + ('o \<Rightarrow> uncertainty list)" where
  "write_bucket bsc [] st = Inr st"
| "write_bucket bsc ((service_uid, uncertainties) # rest) st =
     (case bsc [(''UID'', PStr service_uid)] of
        [] \<Rightarrow> Inl IndexError
      | obj # others \<Rightarrow> write_bucket bsc rest (st(obj := st obj @ uncertainties)))"

definition row_uncertainty :: "rowdict \<Rightarrow> exn + uncertainty" where
  "row_uncertainty row =
     (case row_item row ''Range Min'' of Inl e \<Rightarrow> Inl e | Inr mn \<Rightarrow>
      case row_item row ''Range Max'' of Inl e \<Rightarrow> Inl e | Inr mx \<Rightarrow>
      case row_item row ''Uncertainty Value'' of Inl e \<Rightarrow> Inl e | Inr ev \<Rightarrow>
        Inr \<lparr>intercept_min = mn, intercept_max = mx, errorvalue = ev\<rparr>)"

definition service_of ::
  "(pyval \<Rightarrow> pyval) \<Rightarrow> (query \<Rightarrow> 'o list) \<Rightarrow> rowdict \<Rightarrow> 'o option" where
  "service_of to_unicode bsc row =
     fst (get_object to_unicode bsc ''AnalysisService'' (row_get row ''Service_title'' PNone) [])"

text \<open>
  The body of the loop of \<^verbatim>\<open>load_service_uncertainties\<close> for one row. The counter is
  incremented for every row and is never reset; a row whose service is not found is
  skipped with a warning.
\<close>

definition uncertainty_row ::
  "(pyval \<Rightarrow> pyval) \<Rightarrow> (query \<Rightarrow> 'o list) \<Rightarrow> ('o \<Rightarrow> string) \<Rightarrow> rowdict \<Rightarrow> 'o batch_state
     \<Rightarrow> exn + 'o batch_state" where
  "uncertainty_row to_unicode bsc UID row s =
     (let cnt = count s + 1 in
      case service_of to_unicode bsc row of
        None \<Rightarrow> Inr (s\<lparr>count := cnt\<rparr>)
      | Some service \<Rightarrow>
          (let service_uid = UID service;
               b1 = (if map_of (bucket s) service_uid = None
                     then AList.update service_uid [] (bucket s) else bucket s)
           in case row_uncertainty row of
                Inl e \<Rightarrow> Inl e
              | Inr u \<Rightarrow>
                  (let b2 = AList.map_entry service_uid (\<lambda>us. us @ [u]) b1
                   in if cnt > 500 then
                        (case write_bucket bsc b2 (store s) of
                           Inl e \<Rightarrow> Inl e
                         | Inr st \<Rightarrow>
                             Inr (s\<lparr>bucket := [], count := cnt, store := st, writes := writes s @ [b2]\<rparr>))
                      else Inr (s\<lparr>bucket := b2, count := cnt\<rparr>))))"

fun uncertainties_loop ::
  "(pyval \<Rightarrow> pyval) \<Rightarrow> (query \<Rightarrow> 'o list) \<Rightarrow> ('o \<Rightarrow> string) \<Rightarrow> rowdict list \<Rightarrow> 'o batch_state
     \<Rightarrow> exn + 'o batch_state" where
  "uncertainties_loop to_unicode bsc UID [] s = Inr s"
| "uncertainties_loop to_unicode bsc UID (row # rows) s =
     (case uncertainty_row to_unicode bsc UID row s of
        Inl e \<Rightarrow> Inl e
      | Inr s' \<Rightarrow> uncertainties_loop to_unicode bsc UID rows s')"

definition initial_batch :: "('o \<Rightarrow> uncertainty list) \<Rightarrow> 'o batch_state" where
  "initial_batch st = \<lparr>bucket = [], count = 0, store = st, writes = []\<rparr>"

text \<open>The write after the loop, \<^verbatim>\<open>if bucket: self.write_bucket(bucket)\<close>.\<close>

definition final_write :: "(query \<Rightarrow> 'o list) \<Rightarrow> 'o batch_state \<Rightarrow> exn + 'o batch_state" where
  "final_write bsc s =
     (if bucket s \<noteq> [] then
        (case write_bucket bsc (bucket s) (store s) of
           Inl e \<Rightarrow> Inl e
         | Inr st \<Rightarrow> Inr (s\<lparr>store := st, writes := writes s @ [bucket s]\<rparr>))
      else Inr s)"

definition load_service_uncertainties ::
  "(pyval \<Rightarrow> pyval) \<Rightarrow> (query \<Rightarrow> 'o list) \<Rightarrow> ('o \<Rightarrow> string) \<Rightarrow> worksheet \<Rightarrow> ('o \<Rightarrow> uncertainty list)
     \<Rightarrow> exn + 'o batch_state" where
  "load_service_uncertainties to_unicode bsc UID ws st =
     (case uncertainties_loop to_unicode bsc UID (get_rows 3 ws) (initial_batch st) of
        Inl e \<Rightarrow> Inl e
      | Inr s \<Rightarrow> final_write bsc s)"

text \<open>The number of uncertainties a bucket holds.\<close>

definition bucket_size :: "bucket \<Rightarrow> nat" where
  "bucket_size b = sum_list (map (\<lambda>(k, us). length us) b)"

text \<open>
  The uncertainties the rows add for one object, in the order of the rows: the
  reference against which the writes are compared.
\<close>

definition added_for ::
  "(pyval \<Rightarrow> pyval) \<Rightarrow> (query \<Rightarrow> 'o list) \<Rightarrow> rowdict list \<Rightarrow> 'o \<Rightarrow> uncertainty list" where
  "added_for to_unicode bsc rows obj =
     concat (map (\<lambda>row. if service_of to_unicode bsc row = Some obj
                         then (case row_uncertainty row of Inr u \<Rightarrow> [u] | Inl e \<Rightarrow> [])
                         else []) rows)"

section \<open>Importers that check required fields\<close>










section \<open>A sample catalog\<close>

text \<open>
  A small catalog of analysis services for concrete runs: an object is its UID, title
  and keyword, and a query matches the objects that agree with it on every index.
\<close>

record service =
  service_uid :: string
  service_title :: string
  service_keyword :: string

definition index_value :: "service \<Rightarrow> string \<Rightarrow> pyval" where
  "index_value s ix =
     (if ix = ''portal_type'' then PStr ''AnalysisService''
      else if ix = ''title'' then PStr (service_title s)
      else if ix = ''getKeyword'' then PStr (service_keyword s)
      else if ix = ''UID'' then PStr (service_uid s)
      else PNone)"

definition sample_catalog :: "service list \<Rightarrow> query \<Rightarrow> service list" where
  "sample_catalog objs q = filter (\<lambda>s. list_all (\<lambda>(ix, v). index_value s ix = v) q) objs"

definition sample_services :: "service list" where
  "sample_services =
     [\<lparr>service_uid = ''u1'', service_title = ''Calcium'', service_keyword = ''Ca''\<rparr>,
      \<lparr>service_uid = ''u2'', service_title = ''Magnesium'', service_keyword = ''Mg''\<rparr>,
      \<lparr>service_uid = ''u3'', service_title = ''Sodium'', service_keyword = ''Na''\<rparr>]"

definition uncertainty_headers :: "cell list" where
  "uncertainty_headers =
     [CUnicode ''Service_title'', CUnicode ''Range Min'', CUnicode ''Range Max'',
      CUnicode ''Uncertainty Value'']"

definition uncertainty_cells :: "string \<Rightarrow> cell list" where
  "uncertainty_cells title = [CUnicode title, CInt 0, CInt 10, CInt 1]"

text \<open>
  A sheet of uncertainty rows after the three leading rows: \<open>n\<close> times a row for each
  of three services. With \<open>n = 400\<close> it has 1200 data rows.
\<close>

definition uncertainty_sheet :: "nat \<Rightarrow> worksheet" where
  "uncertainty_sheet n =
     [uncertainty_headers, [], []] @
     concat (replicate n [uncertainty_cells ''Calcium'', uncertainty_cells ''Magnesium'',
                          uncertainty_cells ''Sodium''])"

definition sheet_1200 :: worksheet where
  "sheet_1200 = uncertainty_sheet 400"

section \<open>Reference functions and sample data of the statements\<close>

text \<open>\<^verbatim>\<open>str(row.get(name, ''))\<close>, the text of a column that may be absent.\<close>

definition field_str :: "rowdict \<Rightarrow> string \<Rightarrow> string" where
  "field_str row name = py_str (row_get row name (PStr []))"

text \<open>
  The nested mapping of an address category, as a function of the record: empty
  without the category's \<^verbatim>\<open>_Address\<close> column, one entry per key of
  \<open>address_keys\<close> with it.
\<close>

definition address_sub :: "rowdict \<Rightarrow> string \<Rightarrow> (string \<times> string) list" where
  "address_sub row t =
     (if row_has row (t @ ''_Address'')
      then map (\<lambda>k. (k, py_str (row_get row (t @ ''_'' @ k) (PStr [])))) address_keys
      else [])"

text \<open>Two sample sheets, with data in row 4: one with address columns, one without.\<close>

definition address_sheet :: worksheet where
  "address_sheet =
     [[CUnicode ''Physical_Address'', CUnicode ''Physical_City''], [], [],
      [CUnicode ''789 Elm'', CUnicode ''Springfield'']]"

definition plain_sheet :: worksheet where
  "plain_sheet = [[CUnicode ''title'', CUnicode ''description''], [], [], [CUnicode ''Water'', CNone]]"

text \<open>A file system with one certificate, stored under an upper-case extension.\<close>

definition cert_files :: filesystem where
  "cert_files = Map.empty(''data/cert.PDF'' \<mapsto> ''%PDF-1.4'')"

text \<open>An \<^verbatim>\<open>Import\<close> that changes nothing and fails on a missing file.\<close>

definition failing_import :: "worksheet \<Rightarrow> nat \<Rightarrow> nat \<times> exn option" where
  "failing_import ws st =
     (st, (case read_file Map.empty ''data/logo'' of Inl e \<Rightarrow> Some e | Inr bytes \<Rightarrow> None))"

text \<open>Two services that share a title, for an ambiguous lookup.\<close>

definition twin_services :: "service list" where
  "twin_services =
     [\<lparr>service_uid = ''u7'', service_title = ''Iron'', service_keyword = ''Fe''\<rparr>,
      \<lparr>service_uid = ''u8'', service_title = ''Iron'', service_keyword = ''Fe2''\<rparr>]"




text \<open>The object a UID stands for: the first answer of the catalog to \<^verbatim>\<open>bsc(UID=uid)\<close>.\<close>

definition target :: "(query \<Rightarrow> 'o list) \<Rightarrow> string \<Rightarrow> 'o option" where
  "target bsc uid = (case bsc [(''UID'', PStr uid)] of [] \<Rightarrow> None | obj # others \<Rightarrow> Some obj)"

text \<open>The uncertainties a bucket holds for an object, not yet written.\<close>

definition pending :: "(query \<Rightarrow> 'o list) \<Rightarrow> ('o \<Rightarrow> string) \<Rightarrow> bucket \<Rightarrow> 'o \<Rightarrow> uncertainty list" where
  "pending bsc UID b obj =
     (case map_of b (UID obj) of
        None \<Rightarrow> []
      | Some us \<Rightarrow> if target bsc (UID obj) = Some obj then us else [])"

text \<open>A bucket is well keyed when its keys are distinct UIDs of objects the catalog returns for them.\<close>

definition well_keyed :: "(query \<Rightarrow> 'o list) \<Rightarrow> ('o \<Rightarrow> string) \<Rightarrow> bucket \<Rightarrow> bool" where
  "well_keyed bsc UID b =
     (distinct (map fst b) \<and> list_all (\<lambda>k. case target bsc k of None \<Rightarrow> False | Some obj \<Rightarrow> UID obj = k) (map fst b))"

text \<open>
  A row is ready when, if its service is found, it has the three uncertainty columns
  and the catalog answers the service's UID with that service first.
\<close>

definition row_ready :: "(pyval \<Rightarrow> pyval) \<Rightarrow> (query \<Rightarrow> 'o list) \<Rightarrow> ('o \<Rightarrow> string) \<Rightarrow> rowdict \<Rightarrow> bool" where
  "row_ready to_unicode bsc UID row =
     (case service_of to_unicode bsc row of
        None \<Rightarrow> True
      | Some obj \<Rightarrow>
          (case row_uncertainty row of Inl e \<Rightarrow> False | Inr u \<Rightarrow> True)
          \<and> target bsc (UID obj) = Some obj)"

text \<open>A sheet of four uncertainty rows: two for Calcium, one by keyword for Magnesium, one for no service.\<close>

definition small_sheet :: worksheet where
  "small_sheet =
     [uncertainty_headers, [], [],
      [CUnicode ''Calcium'', CInt 0, CInt 10, CInt 1],
      [CUnicode ''Mg'', CInt 0, CInt 5, CInt 2],
      [CUnicode ''Calcium'', CInt 10, CInt 20, CInt 3],
      [CUnicode ''Zinc'', CInt 0, CInt 1, CInt 9]]"

text \<open>A row that is ready and whose service is found.\<close>

definition row_found :: "(pyval \<Rightarrow> pyval) \<Rightarrow> (query \<Rightarrow> 'o list) \<Rightarrow> ('o \<Rightarrow> string) \<Rightarrow> rowdict \<Rightarrow> bool" where
  "row_found to_unicode bsc UID row =
     (row_ready to_unicode bsc UID row \<and> service_of to_unicode bsc row \<noteq> None)"



section \<open>Properties\<close>

subsection \<open>Numeric coercion\<close>

text \<open>
  Claim C9. The coercion helpers are documented to return the default when the
  conversion fails. On \<^verbatim>\<open>None\<close> the conversion fails with \<^verbatim>\<open>TypeError\<close>, which the
  handler for \<^verbatim>\<open>ValueError\<close> does not catch: both helpers propagate the exception to
  the caller, whatever the default.
\<close>

theorem to_int_to_float_None_raise:
  "to_int PNone dflt = Inl TypeError \<and> to_float fparse fint PNone dflt = Inl TypeError"
  by (simp add: to_int_def to_float_def)

subsection \<open>Rows of a worksheet\<close>

lemma yields_append: "yields (xs @ ys) = yields xs @ yields ys"
  by (induction xs rule: yields.induct) simp_all

lemma rows_loop_yields:
  "1 \<le> n \<Longrightarrow> yields (rows_loop s h n rows) = map (make_record h) (drop (nat s - n) rows)"
proof (induction rows arbitrary: n)
  case Nil
  then show ?case by simp
next
  case (Cons raw rest)
  have step: "yields (rows_loop s h (Suc n) rest) = map (make_record h) (drop (nat s - Suc n) rest)"
    using Cons.IH [of "Suc n"] by simp
  show ?case
  proof (cases "int (Suc n) \<le> s")
    case True
    then have "nat s - n = Suc (nat s - Suc n)" by linarith
    with True Cons.prems step show ?thesis by (simp add: yields_append)
  next
    case False
    then have "nat s - n = 0" "nat s - Suc n = 0" by linarith+
    with False Cons.prems step show ?thesis by (simp add: yields_append)
  qed
qed

lemma get_rows_eq:
  "get_rows s ws = map (make_record (header_row ws)) (drop (nat (max s 1)) ws)"
proof (cases ws)
  case Nil
  then show ?thesis by (simp add: get_rows_def get_rows_events_def)
next
  case (Cons h rest)
  have "nat (max s 1) = Suc (nat s - 1)" by linarith
  with Cons show ?thesis
    by (simp add: get_rows_def get_rows_events_def header_row_def rows_loop_yields)
qed

lemma set_address_key_map_of:
  "map_of row (KText t) = Some (PDict sub) \<Longrightarrow>
   map_of (set_address_key t k row) =
     (map_of row)(KText t \<mapsto> PDict (AList.update k (py_str (row_get row (t @ ''_'' @ k) (PStr []))) sub))"
  by (simp add: set_address_key_def update_conv')

lemma row_get_cong: "map_of r1 (KText n) = map_of r2 (KText n) \<Longrightarrow> row_get r1 n d = row_get r2 n d"
  by (simp add: row_get_def)

lemma fold_set_address_key:
  "map_of row (KText t) = Some (PDict sub) \<Longrightarrow>
   map_of (fold (set_address_key t) ks row) =
     (map_of row)(KText t \<mapsto>
        PDict (fold (\<lambda>k. AList.update k (py_str (row_get row (t @ ''_'' @ k) (PStr [])))) ks sub))"
proof (induction ks arbitrary: row sub)
  case Nil
  then show ?case by (simp add: fun_upd_idem)
next
  case (Cons k ks)
  let ?v = "py_str (row_get row (t @ ''_'' @ k) (PStr []))"
  let ?row = "set_address_key t k row"
  have m: "map_of ?row = (map_of row)(KText t \<mapsto> PDict (AList.update k ?v sub))"
    using Cons.prems by (rule set_address_key_map_of)
  have same: "row_get ?row (t @ ''_'' @ k') d = row_get row (t @ ''_'' @ k') d" for k' d
    by (rule row_get_cong) (simp add: m)
  have "map_of ?row (KText t) = Some (PDict (AList.update k ?v sub))"
    by (simp add: m)
  then have "map_of (fold (set_address_key t) ks ?row) =
     (map_of ?row)(KText t \<mapsto>
        PDict (fold (\<lambda>k. AList.update k (py_str (row_get ?row (t @ ''_'' @ k) (PStr [])))) ks
                 (AList.update k ?v sub)))"
    by (rule Cons.IH)
  also have "\<dots> = (map_of row)(KText t \<mapsto>
        PDict (fold (\<lambda>k. AList.update k (py_str (row_get row (t @ ''_'' @ k) (PStr [])))) ks
                 (AList.update k ?v sub)))"
    by (simp only: m same fun_upd_upd)
  finally show ?case by simp
qed

lemma parse_address_map_of:
  "map_of (parse_address t row) =
     (map_of row)(KText t \<mapsto>
        PDict (if row_has row (t @ ''_Address'')
               then map (\<lambda>k. (k, py_str (row_get row (t @ ''_'' @ k) (PStr [])))) address_keys
               else []))"
proof -
  let ?row = "AList.update (KText t) (PDict []) row"
  have m: "map_of ?row = (map_of row)(KText t \<mapsto> PDict [])"
    by (simp add: update_conv')
  have has: "row_has ?row (t @ ''_Address'') = row_has row (t @ ''_Address'')"
    by (simp add: row_has_def m)
  have same: "row_get ?row (t @ ''_'' @ k) d = row_get row (t @ ''_'' @ k) d" for k d
    by (rule row_get_cong) (simp add: m)
  have "map_of ?row (KText t) = Some (PDict [])" by (simp add: m)
  then have f: "map_of (fold (set_address_key t) address_keys ?row) =
     (map_of ?row)(KText t \<mapsto>
        PDict (fold (\<lambda>k. AList.update k (py_str (row_get ?row (t @ ''_'' @ k) (PStr [])))) address_keys []))"
    by (rule fold_set_address_key)
  have g: "fold (\<lambda>k. AList.update k (g k)) address_keys [] = map (\<lambda>k. (k, g k)) address_keys" for g :: "string \<Rightarrow> string"
    by (simp add: address_keys_def)
  show ?thesis
  proof (cases "row_has row (t @ ''_Address'')")
    case True
    then have "parse_address t row = fold (set_address_key t) address_keys ?row"
      using has by (simp add: parse_address_def Let_def)
    then have "map_of (parse_address t row) =
      (map_of ?row)(KText t \<mapsto>
        PDict (fold (\<lambda>k. AList.update k (py_str (row_get ?row (t @ ''_'' @ k) (PStr [])))) address_keys []))"
      using f by simp
    also have "\<dots> = (map_of row)(KText t \<mapsto>
        PDict (map (\<lambda>k. (k, py_str (row_get row (t @ ''_'' @ k) (PStr [])))) address_keys))"
      by (simp only: same g m fun_upd_upd)
    finally show ?thesis using True by simp
  next
    case False
    then have "parse_address t row = ?row"
      using has by (simp add: parse_address_def Let_def)
    with False m show ?thesis by simp
  qed
qed

lemma parse_address_sub:
  "map_of (parse_address t row) = (map_of row)(KText t \<mapsto> PDict (address_sub row t))"
  by (simp only: parse_address_map_of address_sub_def)

lemma address_sub_cong:
  assumes "\<And>n. n \<noteq> t' \<Longrightarrow> map_of r1 (KText n) = map_of r2 (KText n)"
    and "t @ ''_Address'' \<noteq> t'" and "\<And>k. t @ ''_'' @ k \<noteq> t'"
  shows "address_sub r1 t = address_sub r2 t"
proof -
  have "row_has r1 (t @ ''_Address'') = row_has r2 (t @ ''_Address'')"
    using assms(1) [OF assms(2)] by (simp add: row_has_def)
  moreover have "row_get r1 (t @ ''_'' @ k) d = row_get r2 (t @ ''_'' @ k) d" for k d
    using assms(1) [OF assms(3)] by (simp add: row_get_def)
  ultimately show ?thesis by (simp only: address_sub_def)
qed

lemma make_record_map_of:
  "map_of (make_record h raw) =
     (map_of (zip_dict h (map clean_cell raw)))
       (KText ''Physical'' \<mapsto> PDict (address_sub (zip_dict h (map clean_cell raw)) ''Physical''),
        KText ''Postal'' \<mapsto> PDict (address_sub (zip_dict h (map clean_cell raw)) ''Postal''),
        KText ''Billing'' \<mapsto> PDict (address_sub (zip_dict h (map clean_cell raw)) ''Billing''))"
proof -
  let ?flat = "zip_dict h (map clean_cell raw)"
  let ?r1 = "parse_address ''Physical'' ?flat"
  let ?r2 = "parse_address ''Postal'' ?r1"
  have s2: "address_sub ?r1 ''Postal'' = address_sub ?flat ''Postal''"
    by (rule address_sub_cong [where t' = "''Physical''"]) (simp_all add: parse_address_sub)
  have "address_sub ?r2 ''Billing'' = address_sub ?r1 ''Billing''"
    by (rule address_sub_cong [where t' = "''Postal''"]) (simp_all add: parse_address_sub)
  also have "\<dots> = address_sub ?flat ''Billing''"
    by (rule address_sub_cong [where t' = "''Physical''"]) (simp_all add: parse_address_sub)
  finally have s3: "address_sub ?r2 ''Billing'' = address_sub ?flat ''Billing''" .
  have "make_record h raw = parse_address ''Billing'' ?r2"
    by (simp add: make_record_def address_types_def)
  then show ?thesis
    by (simp only: parse_address_sub s2 s3)
qed

lemma make_record_flat:
  "name \<notin> set address_types \<Longrightarrow>
   map_of (make_record h raw) (KText name) = map_of (zip_dict h (map clean_cell raw)) (KText name)"
  by (simp add: make_record_map_of address_types_def)

lemma make_record_sub:
  assumes "t \<in> set address_types"
  shows "address_sub (make_record h raw) t = address_sub (zip_dict h (map clean_cell raw)) t"
proof -
  have a: "t @ ''_Address'' \<notin> set address_types" and b: "t @ ''_'' @ k \<notin> set address_types" for k
    using assms by (auto simp: address_types_def)
  have "row_has (make_record h raw) (t @ ''_Address'') = row_has (zip_dict h (map clean_cell raw)) (t @ ''_Address'')"
    using make_record_flat [OF a] by (simp add: row_has_def)
  moreover have "row_get (make_record h raw) (t @ ''_'' @ k) d = row_get (zip_dict h (map clean_cell raw)) (t @ ''_'' @ k) d" for k d
    using make_record_flat [OF b] by (simp add: row_get_def)
  ultimately show ?thesis by (simp only: address_sub_def)
qed

lemma make_record_address:
  assumes "t \<in> set address_types"
  shows "map_of (make_record h raw) (KText t) = Some (PDict (address_sub (make_record h raw) t))"
proof -
  have "map_of (make_record h raw) (KText t) = Some (PDict (address_sub (zip_dict h (map clean_cell raw)) t))"
    using assms by (auto simp: make_record_map_of address_types_def)
  then show ?thesis by (simp only: make_record_sub [OF assms])
qed

lemma zip_dict_keys: "row_has (zip_dict h vs) name \<Longrightarrow> KText name \<in> key_of ` set h"
proof -
  assume "row_has (zip_dict h vs) name"
  then have "KText name \<in> dom (map_of (AList.updates (map key_of h) vs []))"
    by (auto simp: row_has_def zip_dict_def)
  then have "KText name \<in> set (take (length vs) (map key_of h))"
    by (simp add: updates_conv' dom_map_upds)
  then show ?thesis using set_take_subset by fastforce
qed

lemma get_rows_records:
  "r \<in> set (get_rows s ws) \<Longrightarrow> \<exists>raw. r = make_record (header_row ws) raw"
  by (auto simp: get_rows_eq)

lemma address_sheet_rows:
  "get_rows 3 address_sheet =
     [[(KText ''Physical_Address'', PStr ''789 Elm''), (KText ''Physical_City'', PStr ''Springfield''),
       (KText ''Physical'',
        PDict [(''Address'', ''789 Elm''), (''City'', ''Springfield''), (''State'', []),
               (''District'', []), (''Zip'', []), (''Country'', [])]),
       (KText ''Postal'', PDict []), (KText ''Billing'', PDict [])]]"
  by code_simp

lemma plain_sheet_rows:
  "get_rows 3 plain_sheet =
     [[(KText ''title'', PStr ''Water''), (KText ''description'', PStr []),
       (KText ''Physical'', PDict []), (KText ''Postal'', PDict []), (KText ''Billing'', PDict [])]]"
  by code_simp

text \<open>
  Claim C3, as the code has it. For every record that \<^verbatim>\<open>get_rows\<close> yields and every
  address category (Physical, Postal, Billing) whose \<^verbatim>\<open>_Address\<close> column the record
  has, the entry of the category is a nested mapping with exactly the six sub-keys
  \<^verbatim>\<open>Address\<close>, \<^verbatim>\<open>City\<close>, \<^verbatim>\<open>State\<close>, \<^verbatim>\<open>District\<close>, \<^verbatim>\<open>Zip\<close>, \<^verbatim>\<open>Country\<close>, spelled as in
  the column names (capitalised, not lower case), each bound to the text of its
  column, the empty string when the column is absent.
\<close>

theorem get_rows_address_expansion:
  assumes "r \<in> set (get_rows startrow ws)" and "t \<in> set address_types"
    and "row_has r (t @ ''_Address'')"
  shows "map_of r (KText t) =
           Some (PDict [(''Address'', field_str r (t @ ''_Address'')),
                        (''City'', field_str r (t @ ''_City'')),
                        (''State'', field_str r (t @ ''_State'')),
                        (''District'', field_str r (t @ ''_District'')),
                        (''Zip'', field_str r (t @ ''_Zip'')),
                        (''Country'', field_str r (t @ ''_Country''))])"
proof -
  from assms(1) obtain raw where r: "r = make_record (header_row ws) raw"
    using get_rows_records by blast
  have "map_of r (KText t) = Some (PDict (address_sub r t))"
    unfolding r using assms(2) by (rule make_record_address)
  with assms(3) show ?thesis
    by (simp add: address_sub_def address_keys_def field_str_def)
qed

text \<open>
  The sheet with \<^verbatim>\<open>Physical_Address = 789 Elm\<close> and \<^verbatim>\<open>Physical_City = Springfield\<close>
  meets the hypotheses; the four absent sub-columns come out as empty strings.
\<close>

theorem get_rows_address_expansion_witness:
  "hd (get_rows 3 address_sheet) \<in> set (get_rows 3 address_sheet)
   \<and> ''Physical'' \<in> set address_types
   \<and> row_has (hd (get_rows 3 address_sheet)) ''Physical_Address''
   \<and> map_of (hd (get_rows 3 address_sheet)) (KText ''Physical'') =
       Some (PDict [(''Address'', ''789 Elm''), (''City'', ''Springfield''), (''State'', []),
                    (''District'', []), (''Zip'', []), (''Country'', [])])"
  using get_rows_address_expansion [of "hd (get_rows 3 address_sheet)" 3 address_sheet "''Physical''"]
  by (simp add: address_sheet_rows address_types_def row_has_def)

text \<open>
  Claim C3 as stated fails on that sheet: the nested mapping has the key
  \<^verbatim>\<open>Address\<close>, and no key \<^verbatim>\<open>address\<close> bound to \<^verbatim>\<open>789 Elm\<close>.
\<close>

theorem address_lowercase_counterexample:
  "map (\<lambda>r. map_of r (KText ''Physical'')) (get_rows 3 address_sheet) =
     [Some (PDict [(''Address'', ''789 Elm''), (''City'', ''Springfield''), (''State'', []),
                   (''District'', []), (''Zip'', []), (''Country'', [])])]
   \<and> \<not> (\<exists>r \<in> set (get_rows 3 address_sheet). \<exists>d.
          map_of r (KText ''Physical'') = Some (PDict d) \<and> map_of d ''address'' = Some ''789 Elm'')"
  by (simp add: address_sheet_rows)

text \<open>
  Claim C5. \<^verbatim>\<open>get_rows\<close> yields the records of exactly the rows after row
  \<open>max startrow 1\<close>, in order, read against the header in row 1: no row with an index
  at or before \<open>startrow\<close> is yielded, row 1 is never yielded, and for a start offset
  of at least 1 the first record is that of row \<open>startrow + 1\<close>.
\<close>

theorem get_rows_start:
  "get_rows startrow ws = map (make_record (header_row ws)) (drop (nat (max startrow 1)) ws)
   \<and> get_rows (int (Suc k)) ws = map (make_record (header_row ws)) (drop (Suc k) ws)"
proof -
  have "nat (max (int (Suc k)) 1) = Suc k" by simp
  then show ?thesis by (simp only: get_rows_eq)
qed

text \<open>
  Claim C10. Every record that \<^verbatim>\<open>get_rows\<close> yields binds each of \<^verbatim>\<open>Physical\<close>,
  \<^verbatim>\<open>Postal\<close> and \<^verbatim>\<open>Billing\<close> to a nested mapping, and the mapping is empty when the
  header row has no \<^verbatim>\<open>_Address\<close> column of that category.
\<close>

theorem get_rows_address_entries:
  "\<forall>r \<in> set (get_rows startrow ws). \<forall>t \<in> set address_types.
     \<exists>d. map_of r (KText t) = Some (PDict d)
         \<and> (KText (t @ ''_Address'') \<notin> key_of ` set (header_row ws) \<longrightarrow> d = [])"
proof (intro ballI)
  fix r t
  assume "r \<in> set (get_rows startrow ws)" and t: "t \<in> set address_types"
  then obtain raw where r: "r = make_record (header_row ws) raw"
    using get_rows_records by blast
  let ?flat = "zip_dict (header_row ws) (map clean_cell raw)"
  have m: "map_of r (KText t) = Some (PDict (address_sub ?flat t))"
    unfolding r using t by (simp only: make_record_address make_record_sub)
  have "address_sub ?flat t = []" if "KText (t @ ''_Address'') \<notin> key_of ` set (header_row ws)"
    using that zip_dict_keys [of "header_row ws" "map clean_cell raw" "t @ ''_Address''"]
    by (auto simp: address_sub_def)
  with m show "\<exists>d. map_of r (KText t) = Some (PDict d)
         \<and> (KText (t @ ''_Address'') \<notin> key_of ` set (header_row ws) \<longrightarrow> d = [])"
    by blast
qed

text \<open>
  A sheet without any address column: its one record has the three entries, all empty.
\<close>

theorem get_rows_address_entries_witness:
  "get_rows 3 plain_sheet \<noteq> []
   \<and> map (\<lambda>r. map (\<lambda>t. map_of r (KText t)) address_types) (get_rows 3 plain_sheet) =
       [[Some (PDict []), Some (PDict []), Some (PDict [])]]"
  using get_rows_address_entries [of 3 plain_sheet]
  by (simp add: plain_sheet_rows address_types_def)

subsection \<open>Asset files\<close>

lemma allowed_ext_eq:
  "allowed_ext =
     [''pdf'', ''jpg'', ''jpeg'', ''png'', ''gif'', ''ods'', ''odt'', ''xlsx'', ''doc'', ''docx'',
      ''xls'', ''csv'', ''txt'', ''PDF'', ''JPG'', ''JPEG'', ''PNG'', ''GIF'', ''ODS'', ''ODT'',
      ''XLSX'', ''DOC'', ''DOCX'', ''XLS'', ''CSV'', ''TXT'']"
  by code_simp

lemma probe_none: "(\<forall>x \<in> set es. fs (candidate path x) = None) \<Longrightarrow> probe fs path es = None"
  by (induction es) simp_all

lemma probe_first:
  "(\<forall>x \<in> set pre. fs (candidate path x) = None) \<Longrightarrow> fs (candidate path e) = Some bytes \<Longrightarrow>
   probe fs path (pre @ e # post) = Some bytes"
  by (induction pre) simp_all

text \<open>
  Claim C4, as the code has it. A file at the path itself is returned. Otherwise the
  26 candidates \<open>path.ext\<close> are probed in the order of \<open>allowed_ext\<close>, the thirteen
  lower-case extensions first and their upper-case forms after them, and the first
  that exists is returned. When none exists \<^verbatim>\<open>read_file\<close> raises \<^verbatim>\<open>IOError\<close>; raised
  inside a sheet's \<^verbatim>\<open>Import\<close>, \<^verbatim>\<open>WorksheetImporter.__call__\<close> catches it, logs a warning
  and returns normally with the state the import had reached.
\<close>

theorem read_file_probe:
  "(fs path = Some bytes \<longrightarrow> read_file fs path = Inr bytes)
   \<and> (fs path = None \<and> allowed_ext = pre @ e # post
        \<and> (\<forall>x \<in> set pre. fs (candidate path x) = None) \<and> fs (candidate path e) = Some bytes
      \<longrightarrow> read_file fs path = Inr bytes)
   \<and> (fs path = None \<and> (\<forall>x \<in> set allowed_ext. fs (candidate path x) = None)
      \<longrightarrow> read_file fs path = Inl (not_found path))
   \<and> allowed_ext =
       [''pdf'', ''jpg'', ''jpeg'', ''png'', ''gif'', ''ods'', ''odt'', ''xlsx'', ''doc'', ''docx'',
        ''xls'', ''csv'', ''txt'', ''PDF'', ''JPG'', ''JPEG'', ''PNG'', ''GIF'', ''ODS'', ''ODT'',
        ''XLSX'', ''DOC'', ''DOCX'', ''XLS'', ''CSV'', ''TXT'']
   \<and> (workbook sheet = Some ws \<and> Import ws st = (st', Some (IOError m))
      \<longrightarrow> WorksheetImporter_call Import workbook sheet st =
            ((st', [LoadingSheet sheet, AttachedFileWarning sheet, PortalMessage]), None))"
proof (intro conjI impI)
  assume "fs path = Some bytes"
  then show "read_file fs path = Inr bytes" by (simp add: read_file_def)
next
  assume a: "fs path = None \<and> allowed_ext = pre @ e # post
        \<and> (\<forall>x \<in> set pre. fs (candidate path x) = None) \<and> fs (candidate path e) = Some bytes"
  then have "probe fs path allowed_ext = Some bytes"
    using probe_first [of pre fs path e bytes post] by simp
  with a show "read_file fs path = Inr bytes" by (simp add: read_file_def)
next
  assume a: "fs path = None \<and> (\<forall>x \<in> set allowed_ext. fs (candidate path x) = None)"
  then have "probe fs path allowed_ext = None" by (simp add: probe_none)
  with a show "read_file fs path = Inl (not_found path)" by (simp add: read_file_def)
next
  show "allowed_ext =
       [''pdf'', ''jpg'', ''jpeg'', ''png'', ''gif'', ''ods'', ''odt'', ''xlsx'', ''doc'', ''docx'',
        ''xls'', ''csv'', ''txt'', ''PDF'', ''JPG'', ''JPEG'', ''PNG'', ''GIF'', ''ODS'', ''ODT'',
        ''XLSX'', ''DOC'', ''DOCX'', ''XLS'', ''CSV'', ''TXT'']"
    by (rule allowed_ext_eq)
next
  assume "workbook sheet = Some ws \<and> Import ws st = (st', Some (IOError m))"
  then show "WorksheetImporter_call Import workbook sheet st =
            ((st', [LoadingSheet sheet, AttachedFileWarning sheet, PortalMessage]), None)"
    by (simp add: WorksheetImporter_call_def)
qed

text \<open>
  Asking for \<^verbatim>\<open>cert\<close> when only \<^verbatim>\<open>cert.PDF\<close> exists returns its bytes, after the
  thirteen lower-case candidates; an import that fails on a missing file ends without
  an exception.
\<close>

theorem read_file_probe_witness:
  "read_file cert_files ''data/cert'' = Inr ''%PDF-1.4''
   \<and> read_file cert_files ''data/cert.PDF'' = Inr ''%PDF-1.4''
   \<and> read_file cert_files ''data/logo'' = Inl (not_found ''data/logo'')
   \<and> WorksheetImporter_call failing_import (Map.empty(''Lab Information'' \<mapsto> [])) ''Lab Information'' (0::nat) =
       ((0, [LoadingSheet ''Lab Information'', AttachedFileWarning ''Lab Information'', PortalMessage]), None)"
proof -
  have none: "cert_files ''data/cert'' = None" "cert_files ''data/logo'' = None"
    by (simp_all add: cert_files_def)
  have split: "allowed_ext = take 13 allowed_ext @ ''PDF'' # drop 14 allowed_ext"
    by (simp add: allowed_ext_eq)
  have pre: "\<forall>x \<in> set (take 13 allowed_ext). cert_files (candidate ''data/cert'' x) = None"
    by (simp add: allowed_ext_eq cert_files_def candidate_def)
  have hit: "cert_files (candidate ''data/cert'' ''PDF'') = Some ''%PDF-1.4''"
    by (simp add: cert_files_def candidate_def)
  have exact: "cert_files ''data/cert.PDF'' = Some ''%PDF-1.4''"
    by (simp add: cert_files_def)
  have miss: "\<forall>x \<in> set allowed_ext. cert_files (candidate ''data/logo'' x) = None"
    by (simp add: allowed_ext_eq cert_files_def candidate_def)
  note exact_case = read_file_probe [THEN conjunct1, rule_format]
  note probe_case = read_file_probe [THEN conjunct2, THEN conjunct1, rule_format]
  note missing_case = read_file_probe [THEN conjunct2, THEN conjunct2, THEN conjunct1, rule_format]
  note call_case =
    read_file_probe [THEN conjunct2, THEN conjunct2, THEN conjunct2, THEN conjunct2, rule_format]
  have r1: "read_file cert_files ''data/cert'' = Inr ''%PDF-1.4''"
    using none(1) split pre hit by (intro probe_case conjI)
  have r2: "read_file cert_files ''data/cert.PDF'' = Inr ''%PDF-1.4''"
    using exact by (rule exact_case)
  have r3: "read_file cert_files ''data/logo'' = Inl (not_found ''data/logo'')"
    using none(2) miss by (intro missing_case conjI)
  have "read_file Map.empty ''data/logo'' = Inl (not_found ''data/logo'')"
    by (rule missing_case) simp
  then have imp: "failing_import [] (0::nat) =
      (0, Some (IOError (''File not found: data/logo. Allowed extensions: '' @ join_comma allowed_ext)))"
    by (simp add: failing_import_def not_found_def)
  have r4: "WorksheetImporter_call failing_import (Map.empty(''Lab Information'' \<mapsto> [])) ''Lab Information'' (0::nat) =
       ((0, [LoadingSheet ''Lab Information'', AttachedFileWarning ''Lab Information'', PortalMessage]), None)"
    by (rule call_case [where ws = "[]"]) (simp add: imp)
  from r1 r2 r3 r4 show ?thesis by simp
qed

text \<open>
  Claim C4 as stated fails where no candidate exists: \<^verbatim>\<open>read_file\<close> does not report
  not-found as a value, it raises \<^verbatim>\<open>IOError\<close>.
\<close>

theorem read_file_raises_counterexample:
  "read_file Map.empty ''cert'' =
     Inl (IOError ''File not found: cert. Allowed extensions: pdf,jpg,jpeg,png,gif,ods,odt,xlsx,doc,docx,xls,csv,txt,PDF,JPG,JPEG,PNG,GIF,ODS,ODT,XLSX,DOC,DOCX,XLS,CSV,TXT'')"
  by (simp add: read_file_def allowed_ext_eq not_found_def)

subsection \<open>Looking an object up\<close>

text \<open>
  Claim C6. When the query built from portal type, title and extra filters matches
  more than one object, \<^verbatim>\<open>get_object\<close> returns \<^verbatim>\<open>None\<close>, never one of the candidates;
  and whenever the catalog is queried at all (a title or a filter was given) the one
  thing logged is the message that more than one object was found for the query.
\<close>

theorem get_object_ambiguous:
  assumes "1 < length (catalog (content_filter to_unicode portal_type title kwargs))"
  shows "fst (get_object to_unicode catalog portal_type title kwargs) = None
         \<and> (truthy title \<or> kwargs \<noteq> [] \<longrightarrow>
              get_object to_unicode catalog portal_type title kwargs =
                (None, [MoreThanOneObject (content_filter to_unicode portal_type title kwargs)]))"
  using assms by (simp add: get_object_def Let_def)

text \<open>Looking up the title \<^verbatim>\<open>Iron\<close>, which two services carry.\<close>

theorem get_object_ambiguous_witness:
  "length (sample_catalog twin_services
             (content_filter id ''AnalysisService'' (PStr ''Iron'') [])) = 2
   \<and> get_object id (sample_catalog twin_services) ''AnalysisService'' (PStr ''Iron'') [] =
       (None, [MoreThanOneObject [(''portal_type'', PStr ''AnalysisService''), (''title'', PStr ''Iron'')]])"
proof -
  have cf: "content_filter id ''AnalysisService'' (PStr ''Iron'') [] =
              [(''portal_type'', PStr ''AnalysisService''), (''title'', PStr ''Iron'')]"
    by (simp add: content_filter_def)
  have n: "length (sample_catalog twin_services
             (content_filter id ''AnalysisService'' (PStr ''Iron'') [])) = 2"
    unfolding cf by (simp add: sample_catalog_def twin_services_def index_value_def)
  then have "1 < length (sample_catalog twin_services
             (content_filter id ''AnalysisService'' (PStr ''Iron'') []))" by simp
  from get_object_ambiguous [where catalog = "sample_catalog twin_services" and to_unicode = id
      and portal_type = "''AnalysisService''" and title = "PStr ''Iron''" and kwargs = "[]", OF this] n cf
  show ?thesis by simp
qed

text \<open>
  Claim C7. When the query matches nothing, the lookup is retried only for the
  portal type \<^verbatim>\<open>AnalysisService\<close>, by the keyword index with the title as keyword, and
  the first object of that answer is returned; if that answer is empty too, or for any
  other portal type whatever the keyword index holds, the result is \<^verbatim>\<open>None\<close> and the
  message that no object was found is logged.
\<close>

theorem get_object_zero_matches:
  assumes "truthy title \<or> kwargs \<noteq> []"
    and "catalog (content_filter to_unicode portal_type title kwargs) = []"
  shows "get_object to_unicode catalog portal_type title kwargs =
           (if portal_type = ''AnalysisService''
            then (case catalog [(''portal_type'', PStr ''AnalysisService''), (''getKeyword'', title)] of
                    b # bs \<Rightarrow> (Some b, [])
                  | [] \<Rightarrow> (None, [NoObjectsFound (content_filter to_unicode portal_type title kwargs)]))
            else (None, [NoObjectsFound (content_filter to_unicode portal_type title kwargs)]))"
  using assms by (auto simp: get_object_def Let_def keyword_query_def)

text \<open>
  No service is titled \<^verbatim>\<open>Ca\<close>: as an analysis service it is found by its keyword, as
  a method it is not found though the keyword index would answer.
\<close>

theorem get_object_zero_matches_witness:
  "sample_catalog sample_services (content_filter id ''AnalysisService'' (PStr ''Ca'') []) = []
   \<and> sample_catalog sample_services (content_filter id ''Method'' (PStr ''Ca'') []) = []
   \<and> get_object id (sample_catalog sample_services) ''AnalysisService'' (PStr ''Ca'') [] =
       (Some \<lparr>service_uid = ''u1'', service_title = ''Calcium'', service_keyword = ''Ca''\<rparr>, [])
   \<and> get_object id (sample_catalog sample_services) ''Method'' (PStr ''Ca'') [] =
       (None, [NoObjectsFound [(''portal_type'', PStr ''Method''), (''title'', PStr ''Ca'')]])"
proof -
  have t: "truthy (PStr ''Ca'') \<or> ([] :: query) \<noteq> []" by simp
  have cf: "content_filter id pt (PStr ''Ca'') [] = [(''portal_type'', PStr pt), (''title'', PStr ''Ca'')]" for pt
    by (simp add: content_filter_def)
  have e1: "sample_catalog sample_services (content_filter id ''AnalysisService'' (PStr ''Ca'') []) = []"
    unfolding cf by (simp add: sample_catalog_def sample_services_def index_value_def)
  have e2: "sample_catalog sample_services (content_filter id ''Method'' (PStr ''Ca'') []) = []"
    unfolding cf by (simp add: sample_catalog_def sample_services_def index_value_def)
  have kw: "sample_catalog sample_services [(''portal_type'', PStr ''AnalysisService''), (''getKeyword'', PStr ''Ca'')] =
              [\<lparr>service_uid = ''u1'', service_title = ''Calcium'', service_keyword = ''Ca''\<rparr>]"
    by (simp add: sample_catalog_def sample_services_def index_value_def)
  note zero = get_object_zero_matches [where catalog = "sample_catalog sample_services"
      and to_unicode = id and title = "PStr ''Ca''" and kwargs = "[]"]
  from zero [where portal_type = "''AnalysisService''", OF t e1]
    zero [where portal_type = "''Method''", OF t e2] e1 e2 kw cf
  show ?thesis by simp
qed

subsection \<open>Importers that check required fields\<close>












subsection \<open>The uncertainty batches\<close>

lemma well_keyed_Nil: "well_keyed bsc UID []"
  by (simp add: well_keyed_def)

lemma pending_Nil: "pending bsc UID [] obj = []"
  by (simp add: pending_def)

lemma well_keyed_Cons:
  "well_keyed bsc UID ((k, us) # rest) \<Longrightarrow>
   well_keyed bsc UID rest \<and> map_of rest k = None \<and> (\<exists>obj. target bsc k = Some obj \<and> UID obj = k)"
  by (auto simp: well_keyed_def map_of_eq_None_iff split: option.splits)

lemma write_bucket_pending:
  "well_keyed bsc UID b \<Longrightarrow> write_bucket bsc b st = Inr (\<lambda>obj. st obj @ pending bsc UID b obj)"
proof (induction b arbitrary: st)
  case Nil
  then show ?case by (simp add: pending_Nil)
next
  case (Cons entry rest)
  obtain k us where entry: "entry = (k, us)" by (cases entry)
  from Cons.prems [unfolded entry] well_keyed_Cons
  obtain obj where wk: "well_keyed bsc UID rest" and fresh: "map_of rest k = None"
    and tg: "target bsc k = Some obj" and uid: "UID obj = k"
    by blast
  from tg obtain others where q: "bsc [(''UID'', PStr k)] = obj # others"
    by (auto simp: target_def split: list.splits)
  have "write_bucket bsc (entry # rest) st = write_bucket bsc rest (st(obj := st obj @ us))"
    by (simp add: entry q)
  also have "\<dots> = Inr (\<lambda>x. (st(obj := st obj @ us)) x @ pending bsc UID rest x)"
    using wk by (rule Cons.IH)
  also have "(\<lambda>x. (st(obj := st obj @ us)) x @ pending bsc UID rest x) =
             (\<lambda>x. st x @ pending bsc UID (entry # rest) x)"
  proof
    fix x
    show "(st(obj := st obj @ us)) x @ pending bsc UID rest x = st x @ pending bsc UID (entry # rest) x"
      using fresh tg uid by (auto simp: pending_def entry)
  qed
  finally show ?case .
qed

text \<open>The two bucket statements of the loop body, as one step on the mapping.\<close>

lemma bucket_append_map_of:
  "map_of (AList.map_entry k (\<lambda>us. us @ [u]) (if map_of b k = None then AList.update k [] b else b)) =
     (map_of b)(k \<mapsto> (case map_of b k of None \<Rightarrow> [] | Some us \<Rightarrow> us) @ [u])"
  by (auto simp: map_of_map_entry update_conv' fun_eq_iff)

lemma bucket_append_keys:
  "fst ` set (AList.map_entry k f (if map_of b k = None then AList.update k [] b else b)) = insert k (fst ` set b)"
  by (auto simp: dom_map_entry dom_update map_of_eq_None_iff)

lemma bucket_append_well_keyed:
  assumes "well_keyed bsc UID b" and "target bsc k = Some obj" and "UID obj = k"
  shows "well_keyed bsc UID (AList.map_entry k f (if map_of b k = None then AList.update k [] b else b))"
proof -
  let ?b = "AList.map_entry k f (if map_of b k = None then AList.update k [] b else b)"
  have "distinct (map fst ?b)"
    using assms(1) by (auto simp: well_keyed_def intro!: distinct_map_entry distinct_update)
  moreover have "\<forall>x \<in> fst ` set ?b. case target bsc x of None \<Rightarrow> False | Some obj \<Rightarrow> UID obj = x"
    unfolding bucket_append_keys using assms by (auto simp: well_keyed_def list_all_iff)
  ultimately show ?thesis by (simp add: well_keyed_def list_all_iff)
qed

lemma bucket_append_pending:
  assumes "target bsc k = Some obj" and "UID obj = k"
  shows "pending bsc UID (AList.map_entry k (\<lambda>us. us @ [u]) (if map_of b k = None then AList.update k [] b else b)) x =
         pending bsc UID b x @ (if x = obj then [u] else [])"
  unfolding pending_def bucket_append_map_of using assms
  by (auto split: option.splits)

lemma added_for_Cons:
  "added_for to_unicode bsc (row # rows) obj =
     added_for to_unicode bsc [row] obj @ added_for to_unicode bsc rows obj"
  by (simp add: added_for_def)

lemma uncertainty_row_step:
  assumes "row_ready to_unicode bsc UID row" and "well_keyed bsc UID (bucket s)"
  shows "\<exists>s'. uncertainty_row to_unicode bsc UID row s = Inr s'
           \<and> well_keyed bsc UID (bucket s')
           \<and> (\<forall>obj. store s' obj @ pending bsc UID (bucket s') obj =
                      store s obj @ pending bsc UID (bucket s) obj @ added_for to_unicode bsc [row] obj)"
proof (cases "service_of to_unicode bsc row")
  case None
  then have "uncertainty_row to_unicode bsc UID row s = Inr (s\<lparr>count := count s + 1\<rparr>)"
    by (simp add: uncertainty_row_def)
  moreover have "added_for to_unicode bsc [row] obj = []" for obj
    using None by (simp add: added_for_def)
  ultimately show ?thesis using assms(2) by simp
next
  case (Some service)
  from assms(1) Some obtain u where u: "row_uncertainty row = Inr u"
    and tg: "target bsc (UID service) = Some service"
    by (auto simp: row_ready_def split: sum.splits)
  let ?k = "UID service"
  let ?b1 = "if map_of (bucket s) ?k = None then AList.update ?k [] (bucket s) else bucket s"
  let ?b2 = "AList.map_entry ?k (\<lambda>us. us @ [u]) ?b1"
  have wk: "well_keyed bsc UID ?b2"
    using assms(2) tg by (rule bucket_append_well_keyed) simp
  have pend: "pending bsc UID ?b2 obj = pending bsc UID (bucket s) obj @ (if obj = service then [u] else [])" for obj
    using tg by (rule bucket_append_pending) simp
  have add: "added_for to_unicode bsc [row] obj = (if obj = service then [u] else [])" for obj
    using Some u by (auto simp: added_for_def)
  show ?thesis
  proof (cases "count s + 1 > 500")
    case True
    have w: "write_bucket bsc ?b2 (store s) = Inr (\<lambda>obj. store s obj @ pending bsc UID ?b2 obj)"
      using wk by (rule write_bucket_pending)
    have "uncertainty_row to_unicode bsc UID row s =
            Inr (s\<lparr>bucket := [], count := count s + 1,
                   store := (\<lambda>obj. store s obj @ pending bsc UID ?b2 obj), writes := writes s @ [?b2]\<rparr>)"
      using True Some u w by (simp add: uncertainty_row_def Let_def)
    then show ?thesis
      by (simp add: well_keyed_Nil pending_Nil pend add)
  next
    case False
    have "uncertainty_row to_unicode bsc UID row s = Inr (s\<lparr>bucket := ?b2, count := count s + 1\<rparr>)"
      using False Some u by (simp add: uncertainty_row_def Let_def)
    then show ?thesis
      using wk by (simp add: pend add)
  qed
qed

lemma uncertainties_loop_invariant:
  assumes "\<forall>row \<in> set rows. row_ready to_unicode bsc UID row" and "well_keyed bsc UID (bucket s)"
  shows "\<exists>s'. uncertainties_loop to_unicode bsc UID rows s = Inr s'
           \<and> well_keyed bsc UID (bucket s')
           \<and> (\<forall>obj. store s' obj @ pending bsc UID (bucket s') obj =
                      store s obj @ pending bsc UID (bucket s) obj @ added_for to_unicode bsc rows obj)"
  using assms
proof (induction rows arbitrary: s)
  case Nil
  then show ?case by (simp add: added_for_def)
next
  case (Cons row rows)
  from Cons.prems have "row_ready to_unicode bsc UID row" by simp
  from uncertainty_row_step [OF this Cons.prems(2)]
  obtain s1 where s1: "uncertainty_row to_unicode bsc UID row s = Inr s1"
    and wk1: "well_keyed bsc UID (bucket s1)"
    and eq1: "\<And>obj. store s1 obj @ pending bsc UID (bucket s1) obj =
                store s obj @ pending bsc UID (bucket s) obj @ added_for to_unicode bsc [row] obj"
    by blast
  from Cons.prems have "\<forall>row \<in> set rows. row_ready to_unicode bsc UID row" by simp
  from Cons.IH [OF this wk1]
  obtain s2 where s2: "uncertainties_loop to_unicode bsc UID rows s1 = Inr s2"
    and wk2: "well_keyed bsc UID (bucket s2)"
    and eq2: "\<And>obj. store s2 obj @ pending bsc UID (bucket s2) obj =
                store s1 obj @ pending bsc UID (bucket s1) obj @ added_for to_unicode bsc rows obj"
    by blast
  have "uncertainties_loop to_unicode bsc UID (row # rows) s = Inr s2"
    by (simp add: s1 s2)
  moreover have "store s2 obj @ pending bsc UID (bucket s2) obj =
      store s obj @ pending bsc UID (bucket s) obj @ added_for to_unicode bsc (row # rows) obj" for obj
    using eq2 [of obj] eq1 [of obj] by (simp add: added_for_Cons [of _ _ row rows])
  ultimately show ?case using wk2 by blast
qed

lemma final_write_store:
  assumes "well_keyed bsc UID (bucket s)"
  shows "\<exists>s'. final_write bsc s = Inr s'
            \<and> (\<forall>obj. store s' obj = store s obj @ pending bsc UID (bucket s) obj)"
proof (cases "bucket s = []")
  case True
  then show ?thesis by (simp add: final_write_def pending_Nil)
next
  case False
  then show ?thesis
    by (simp add: final_write_def write_bucket_pending [OF assms])
qed

text \<open>
  Claim C2. Let every row of the sheet be ready. Then the load ends without an
  exception, and the uncertainties of every object are at the end those it had before,
  followed by exactly the uncertainties the rows added for it, once each and in the
  order of the rows; an object no row names keeps what it had.
\<close>

theorem load_service_uncertainties_store:
  assumes "\<forall>row \<in> set (get_rows 3 ws). row_ready to_unicode bsc UID row"
  shows "\<exists>s. load_service_uncertainties to_unicode bsc UID ws st = Inr s
           \<and> (\<forall>obj. store s obj = st obj @ added_for to_unicode bsc (get_rows 3 ws) obj)"
proof -
  have "well_keyed bsc UID (bucket (initial_batch st))"
    by (simp add: initial_batch_def well_keyed_Nil)
  from uncertainties_loop_invariant [OF assms this]
  obtain s1 where s1: "uncertainties_loop to_unicode bsc UID (get_rows 3 ws) (initial_batch st) = Inr s1"
    and wk: "well_keyed bsc UID (bucket s1)"
    and eq: "\<And>obj. store s1 obj @ pending bsc UID (bucket s1) obj =
               st obj @ added_for to_unicode bsc (get_rows 3 ws) obj"
    by (auto simp: initial_batch_def pending_Nil)
  from final_write_store [OF wk]
  obtain s2 where s2: "final_write bsc s1 = Inr s2"
    and st2: "\<And>obj. store s2 obj = store s1 obj @ pending bsc UID (bucket s1) obj"
    by blast
  have "load_service_uncertainties to_unicode bsc UID ws st = Inr s2"
    by (simp add: load_service_uncertainties_def s1 s2)
  then show ?thesis using st2 eq by simp
qed

lemma small_sheet_ready:
  "list_all (row_ready id (sample_catalog sample_services) service_uid) (get_rows 3 small_sheet)"
  by code_simp

lemma small_sheet_added:
  "map (added_for id (sample_catalog sample_services) (get_rows 3 small_sheet)) sample_services =
     [[\<lparr>intercept_min = PInt 0, intercept_max = PInt 10, errorvalue = PInt 1\<rparr>,
       \<lparr>intercept_min = PInt 10, intercept_max = PInt 20, errorvalue = PInt 3\<rparr>],
      [\<lparr>intercept_min = PInt 0, intercept_max = PInt 5, errorvalue = PInt 2\<rparr>],
      []]"
  by code_simp

text \<open>
  On the sheet of four rows, every row is ready; Calcium receives its two uncertainties
  in the order of the rows, Magnesium its one, Sodium none.
\<close>

theorem load_service_uncertainties_store_witness:
  "list_all (row_ready id (sample_catalog sample_services) service_uid) (get_rows 3 small_sheet)
   \<and> (\<exists>s. load_service_uncertainties id (sample_catalog sample_services) service_uid small_sheet (\<lambda>obj. []) = Inr s
          \<and> map (store s) sample_services =
              [[\<lparr>intercept_min = PInt 0, intercept_max = PInt 10, errorvalue = PInt 1\<rparr>,
                \<lparr>intercept_min = PInt 10, intercept_max = PInt 20, errorvalue = PInt 3\<rparr>],
               [\<lparr>intercept_min = PInt 0, intercept_max = PInt 5, errorvalue = PInt 2\<rparr>],
               []])"
proof -
  have ready: "\<forall>row \<in> set (get_rows 3 small_sheet). row_ready id (sample_catalog sample_services) service_uid row"
    using small_sheet_ready by (simp add: list_all_iff)
  from load_service_uncertainties_store [OF ready, of "\<lambda>obj. []"]
  obtain s where s: "load_service_uncertainties id (sample_catalog sample_services) service_uid small_sheet (\<lambda>obj. []) = Inr s"
    and st: "\<And>obj. store s obj = added_for id (sample_catalog sample_services) (get_rows 3 small_sheet) obj"
    by auto
  have "map (store s) sample_services =
          map (added_for id (sample_catalog sample_services) (get_rows 3 small_sheet)) sample_services"
    by (simp add: st)
  with s small_sheet_ready small_sheet_added show ?thesis by simp
qed

subsection \<open>The flush threshold\<close>

lemma bucket_size_entry:
  "k \<in> fst ` set b \<Longrightarrow> bucket_size (AList.map_entry k (\<lambda>us. us @ [u]) b) = Suc (bucket_size b)"
  by (induction b) (auto simp: bucket_size_def)

lemma bucket_size_update:
  "map_of b k = None \<Longrightarrow> bucket_size (AList.update k [] b) = bucket_size b"
  by (induction b) (auto simp: bucket_size_def)

lemma bucket_size_append:
  "bucket_size (AList.map_entry k (\<lambda>us. us @ [u]) (if map_of b k = None then AList.update k [] b else b)) =
     Suc (bucket_size b)"
proof (cases "map_of b k = None")
  case True
  have "k \<in> fst ` set (AList.update k [] b)" by (simp add: dom_update)
  then show ?thesis using True by (simp add: bucket_size_entry bucket_size_update)
next
  case False
  then have "k \<in> fst ` set b" by (simp add: map_of_eq_None_iff)
  with False show ?thesis by (auto simp: bucket_size_entry)
qed

lemma uncertainty_row_found:
  assumes "row_found to_unicode bsc UID row" and "well_keyed bsc UID (bucket s)"
  shows "\<exists>s'. uncertainty_row to_unicode bsc UID row s = Inr s'
           \<and> count s' = Suc (count s) \<and> well_keyed bsc UID (bucket s')
           \<and> (if 500 \<le> count s
               then bucket s' = []
                    \<and> map bucket_size (writes s') = map bucket_size (writes s) @ [Suc (bucket_size (bucket s))]
               else writes s' = writes s \<and> bucket_size (bucket s') = Suc (bucket_size (bucket s)))"
proof -
  from assms(1) obtain service u where sv: "service_of to_unicode bsc row = Some service"
    and u: "row_uncertainty row = Inr u" and tg: "target bsc (UID service) = Some service"
    by (auto simp: row_found_def row_ready_def split: sum.splits)
  let ?k = "UID service"
  let ?b1 = "if map_of (bucket s) ?k = None then AList.update ?k [] (bucket s) else bucket s"
  let ?b2 = "AList.map_entry ?k (\<lambda>us. us @ [u]) ?b1"
  have wk: "well_keyed bsc UID ?b2"
    using assms(2) tg by (rule bucket_append_well_keyed) simp
  have size: "bucket_size ?b2 = Suc (bucket_size (bucket s))"
    by (rule bucket_size_append)
  show ?thesis
  proof (cases "500 \<le> count s")
    case True
    have w: "write_bucket bsc ?b2 (store s) = Inr (\<lambda>obj. store s obj @ pending bsc UID ?b2 obj)"
      using wk by (rule write_bucket_pending)
    have "uncertainty_row to_unicode bsc UID row s =
            Inr (s\<lparr>bucket := [], count := count s + 1,
                   store := (\<lambda>obj. store s obj @ pending bsc UID ?b2 obj), writes := writes s @ [?b2]\<rparr>)"
      using True sv u w by (simp add: uncertainty_row_def Let_def)
    then show ?thesis using True size by (simp add: well_keyed_Nil)
  next
    case False
    have "uncertainty_row to_unicode bsc UID row s = Inr (s\<lparr>bucket := ?b2, count := count s + 1\<rparr>)"
      using False sv u by (simp add: uncertainty_row_def Let_def)
    then show ?thesis using False size wk by simp
  qed
qed

lemma uncertainties_loop_append:
  "uncertainties_loop to_unicode bsc UID (xs @ ys) s =
     (case uncertainties_loop to_unicode bsc UID xs s of
        Inl e \<Rightarrow> Inl e
      | Inr s' \<Rightarrow> uncertainties_loop to_unicode bsc UID ys s')"
  by (induction xs arbitrary: s) (simp_all split: sum.splits)

lemma loop_below_threshold:
  assumes "\<forall>row \<in> set rows. row_found to_unicode bsc UID row" and "well_keyed bsc UID (bucket s)"
    and "count s + length rows \<le> 500"
  shows "\<exists>s'. uncertainties_loop to_unicode bsc UID rows s = Inr s'
           \<and> count s' = count s + length rows \<and> well_keyed bsc UID (bucket s')
           \<and> writes s' = writes s \<and> bucket_size (bucket s') = bucket_size (bucket s) + length rows"
  using assms
proof (induction rows arbitrary: s)
  case Nil
  then show ?case by simp
next
  case (Cons row rows)
  from Cons.prems have f: "row_found to_unicode bsc UID row" and lt: "\<not> 500 \<le> count s" by simp_all
  from uncertainty_row_found [OF f Cons.prems(2)] lt
  obtain s1 where s1: "uncertainty_row to_unicode bsc UID row s = Inr s1"
    and c1: "count s1 = Suc (count s)" and wk1: "well_keyed bsc UID (bucket s1)"
    and w1: "writes s1 = writes s" and b1: "bucket_size (bucket s1) = Suc (bucket_size (bucket s))"
    by auto
  from Cons.prems c1 have "\<forall>row \<in> set rows. row_found to_unicode bsc UID row"
    and "count s1 + length rows \<le> 500" by simp_all
  from Cons.IH [OF this(1) wk1 this(2)] s1 c1 w1 b1 show ?case by auto
qed

lemma loop_above_threshold:
  assumes "\<forall>row \<in> set rows. row_found to_unicode bsc UID row" and "bucket s = []"
    and "500 \<le> count s"
  shows "\<exists>s'. uncertainties_loop to_unicode bsc UID rows s = Inr s' \<and> bucket s' = []
           \<and> map bucket_size (writes s') = map bucket_size (writes s) @ replicate (length rows) 1"
  using assms
proof (induction rows arbitrary: s)
  case Nil
  then show ?case by simp
next
  case (Cons row rows)
  from Cons.prems have f: "row_found to_unicode bsc UID row" by simp
  have "well_keyed bsc UID (bucket s)" using Cons.prems(2) by (simp add: well_keyed_Nil)
  from uncertainty_row_found [OF f this] Cons.prems(2,3)
  obtain s1 where s1: "uncertainty_row to_unicode bsc UID row s = Inr s1"
    and c1: "count s1 = Suc (count s)" and e1: "bucket s1 = []"
    and w1: "map bucket_size (writes s1) = map bucket_size (writes s) @ [1]"
    by (auto simp: bucket_size_def)
  from Cons.prems c1 have "\<forall>row \<in> set rows. row_found to_unicode bsc UID row"
    and "500 \<le> count s1" by simp_all
  from Cons.IH [OF this(1) e1 this(2)] s1 w1 show ?case
    by (auto simp: replicate_append_same)
qed

lemma loop_across_threshold:
  assumes found: "\<forall>row \<in> set rows. row_found to_unicode bsc UID row"
    and len: "500 < length rows"
  shows "\<exists>s. uncertainties_loop to_unicode bsc UID rows (initial_batch st) = Inr s \<and> bucket s = []
           \<and> map bucket_size (writes s) = 501 # replicate (length rows - 501) 1"
proof -
  let ?s0 = "initial_batch st :: 'a batch_state"
  have split: "rows = take 500 rows @ [rows ! 500] @ drop 501 rows"
    using id_take_nth_drop [OF len] by simp
  have f1: "\<forall>row \<in> set (take 500 rows). row_found to_unicode bsc UID row"
    using found by (meson in_set_takeD)
  have f2: "row_found to_unicode bsc UID (rows ! 500)"
    using found len by simp
  have f3: "\<forall>row \<in> set (drop 501 rows). row_found to_unicode bsc UID row"
    using found by (meson in_set_dropD)
  have "well_keyed bsc UID (bucket ?s0)" "count ?s0 + length (take 500 rows) \<le> 500"
    using len by (simp_all add: initial_batch_def well_keyed_Nil)
  from loop_below_threshold [OF f1 this]
  obtain s1 where s1: "uncertainties_loop to_unicode bsc UID (take 500 rows) ?s0 = Inr s1"
    and c1: "count s1 = 500" and wk1: "well_keyed bsc UID (bucket s1)"
    and w1: "writes s1 = []" and b1: "bucket_size (bucket s1) = 500"
    using len by (auto simp: initial_batch_def bucket_size_def)
  from uncertainty_row_found [OF f2 wk1] c1 w1 b1
  obtain s2 where s2: "uncertainty_row to_unicode bsc UID (rows ! 500) s1 = Inr s2"
    and c2: "count s2 = 501" and e2: "bucket s2 = []"
    and w2: "map bucket_size (writes s2) = [501]"
    by auto
  have "500 \<le> count s2" using c2 by simp
  from loop_above_threshold [OF f3 e2 this] w2
  obtain s3 where s3: "uncertainties_loop to_unicode bsc UID (drop 501 rows) s2 = Inr s3"
    and e3: "bucket s3 = []"
    and w3: "map bucket_size (writes s3) = 501 # replicate (length rows - 501) 1"
    by auto
  have "uncertainties_loop to_unicode bsc UID ([rows ! 500] @ drop 501 rows) s1 = Inr s3"
    by (simp add: s2 s3)
  then have "uncertainties_loop to_unicode bsc UID (take 500 rows @ [rows ! 500] @ drop 501 rows) ?s0 = Inr s3"
    by (simp only: uncertainties_loop_append [of _ _ _ "take 500 rows"] s1 sum.case)
  with split e3 w3 show ?thesis by metis
qed

lemma uncertainty_sheet_rows:
  "get_rows 3 (uncertainty_sheet n) =
     map (make_record uncertainty_headers)
       (concat (replicate n [uncertainty_cells ''Calcium'', uncertainty_cells ''Magnesium'',
                             uncertainty_cells ''Sodium'']))"
  by (simp add: get_rows_eq uncertainty_sheet_def header_row_def)

lemma uncertainty_sheet_length: "length (get_rows 3 (uncertainty_sheet n)) = 3 * n"
  by (simp add: uncertainty_sheet_rows length_concat sum_list_replicate)

lemma sample_rows_found:
  "list_all (\<lambda>title. row_found id (sample_catalog sample_services) service_uid
                       (make_record uncertainty_headers (uncertainty_cells title)))
     [''Calcium'', ''Magnesium'', ''Sodium'']"
  by code_simp

lemma uncertainty_sheet_found:
  "\<forall>row \<in> set (get_rows 3 (uncertainty_sheet n)).
     row_found id (sample_catalog sample_services) service_uid row"
  using sample_rows_found by (auto simp: uncertainty_sheet_rows split: if_splits)

lemma sheet_1200_length: "length (get_rows 3 sheet_1200) = 1200"
  by (simp add: sheet_1200_def uncertainty_sheet_length)

text \<open>
  Claim C1, on the code. For the sheet of 1200 uncertainty rows over three services,
  all of them found, the loop writes the bucket 700 times: first after row 501, with
  501 uncertainties, then after every one of the 699 rows that follow, with one
  uncertainty each, because the counter is never reset. The bucket is empty when the
  loop ends, so the write after the loop does not happen. The claim has two writes in
  the loop, after rows 500 and 1000, and a last one for 200 uncertainties.
\<close>

theorem load_1200_writes:
  "\<exists>s. uncertainties_loop id (sample_catalog sample_services) service_uid
          (get_rows 3 sheet_1200) (initial_batch (\<lambda>obj. [])) = Inr s
        \<and> length (get_rows 3 sheet_1200) = 1200
        \<and> bucket s = []
        \<and> map bucket_size (writes s) = 501 # replicate 699 1
        \<and> load_service_uncertainties id (sample_catalog sample_services) service_uid
             sheet_1200 (\<lambda>obj. []) = Inr s"
proof -
  have found: "\<forall>row \<in> set (get_rows 3 sheet_1200).
      row_found id (sample_catalog sample_services) service_uid row"
    unfolding sheet_1200_def by (rule uncertainty_sheet_found)
  have len: "500 < length (get_rows 3 sheet_1200)" by (simp add: sheet_1200_length)
  have rest: "length (get_rows 3 sheet_1200) - 501 = 699" by (simp add: sheet_1200_length)
  have "\<exists>s. uncertainties_loop id (sample_catalog sample_services) service_uid
          (get_rows 3 sheet_1200) (initial_batch (\<lambda>obj. [])) = Inr s \<and> bucket s = []
        \<and> map bucket_size (writes s) = 501 # replicate (length (get_rows 3 sheet_1200) - 501) 1"
    using found len by (rule loop_across_threshold)
  then obtain s where s: "uncertainties_loop id (sample_catalog sample_services) service_uid
          (get_rows 3 sheet_1200) (initial_batch (\<lambda>obj. [])) = Inr s"
    and e: "bucket s = []"
    and w: "map bucket_size (writes s) = 501 # replicate 699 1"
    unfolding rest by (elim exE conjE)
  have "final_write (sample_catalog sample_services) s = Inr s"
    by (simp add: final_write_def e)
  then have ld: "load_service_uncertainties id (sample_catalog sample_services) service_uid
             sheet_1200 (\<lambda>obj. []) = Inr s"
    by (simp only: load_service_uncertainties_def s sum.case)
  show ?thesis
    by (intro exI [of _ s] conjI) (fact s sheet_1200_length e w ld)+
qed

end
